theory Spec2Isabelle
  imports Main
begin

section \<open>JavaScript values as the services see them\<close>

text \<open>
  The frontmatter of a document is a \<^verbatim>\<open>Record<string, any>\<close>: the services read its
  fields with no run-time check of their types, so the model keeps the values that can
  be there (strings, booleans, arrays, and what a strict array decoding can add: numbers
  and null), and \<^verbatim>\<open>undefined\<close> for a key that is absent.
\<close>

datatype jsval =
    JUndefined
  | JNull
  | JBool bool
  | JNum int
  | JStr string
  | JArr "jsval list"

text \<open>Truthiness, as \<^verbatim>\<open>||\<close>, \<^verbatim>\<open>?:\<close> and \<^verbatim>\<open>if\<close> read a value: an array is always truthy.\<close>

fun js_truthy :: "jsval \<Rightarrow> bool" where
  "js_truthy JUndefined = False"
| "js_truthy JNull = False"
| "js_truthy (JBool b) = b"
| "js_truthy (JNum n) = (n \<noteq> 0)"
| "js_truthy (JStr s) = (s \<noteq> [])"
| "js_truthy (JArr xs) = True"

text \<open>\<^verbatim>\<open>a || b\<close> on values.\<close>

definition js_or :: "jsval \<Rightarrow> jsval \<Rightarrow> jsval" where
  "js_or a b = (if js_truthy a then a else b)"

type_synonym frontmatter = "string \<rightharpoonup> jsval"

text \<open>\<^verbatim>\<open>frontmatter.key\<close>: the value, or \<^verbatim>\<open>undefined\<close> when the key is absent.\<close>

definition fm_get :: "frontmatter \<Rightarrow> string \<Rightarrow> jsval" where
  "fm_get fm k = (case fm k of None \<Rightarrow> JUndefined | Some v \<Rightarrow> v)"

text \<open>A thrown \<^verbatim>\<open>Error\<close>; the services only read its \<^verbatim>\<open>message\<close>.\<close>

datatype js_error = Error string | TypeError string

fun err_message :: "js_error \<Rightarrow> string" where
  "err_message (Error m) = m"
| "err_message (TypeError m) = m"

section \<open>Records of the two services\<close>

text \<open>
  \<^verbatim>\<open>CursorRule\<close> and \<^verbatim>\<open>AgentRule\<close> share \<^verbatim>\<open>file\<close> (here \<open>file_name\<close>), \<^verbatim>\<open>description\<close> and \<^verbatim>\<open>content\<close>.
  The interfaces declare \<^verbatim>\<open>description: string\<close>, \<^verbatim>\<open>globs: string[]\<close> and
  \<^verbatim>\<open>alwaysApply: boolean\<close>, but the fields are filled from the untyped frontmatter, so
  they hold whatever value was there.
\<close>

record rule_base =
  file_name :: string
  description :: jsval
  content :: string

record CursorRule = rule_base +
  globs :: "jsval list"
  alwaysApply :: jsval

record AgentRule = rule_base +
  metadata :: frontmatter

text \<open>
  The \<^verbatim>\<open>message\<close> of a result, one constructor for each template literal of the
  services, with the values the template interpolates.
\<close>

datatype message =
    NoRulesDirectory string
    \<comment> \<open>\<^verbatim>\<open>No .cursor/rules directory found at ${rulesDir}\<close>\<close>
  | LoadedRules "CursorRule list" string "string list"
    \<comment> \<open>\<^verbatim>\<open>Loaded ${rules.length} rule files from ${rulesDir}: ...\<close>, with the warnings\<close>
  | ErrorLoadingRules string
    \<comment> \<open>\<^verbatim>\<open>Error loading cursor rules: ${message}\<close>\<close>
  | NoRulesFound
    \<comment> \<open>\<^verbatim>\<open>No Cursor rules found. Run load_cursor_rules first.\<close>\<close>
  | NoRulesApply string string
    \<comment> \<open>\<^verbatim>\<open>No Cursor rules apply to ${filePath} (${relativePath})\<close>\<close>
  | ApplicableRules string "CursorRule list"
    \<comment> \<open>\<^verbatim>\<open>Applicable Cursor rules for ${filePath}: ...\<close>\<close>
  | ErrorGettingRules string
    \<comment> \<open>\<^verbatim>\<open>Error getting cursor rules: ${message}\<close>\<close>
  | NoAgentsFile string
    \<comment> \<open>\<^verbatim>\<open>No AGENTS.md file found at ${agentsPath}\<close>\<close>
  | LoadedAgents string jsval
    \<comment> \<open>\<^verbatim>\<open>Loaded AGENTS.md from ${agentsPath}: ... ${agent.description}\<close>\<close>
  | ErrorLoadingAgents string
    \<comment> \<open>\<^verbatim>\<open>Error loading AGENTS.md: ${message}\<close>\<close>
  | NoAgentsFound
    \<comment> \<open>\<^verbatim>\<open>No AGENTS.md found. Run load_agents first.\<close>\<close>
  | AgentsContent jsval string
    \<comment> \<open>\<^verbatim>\<open>AGENTS.md content: ## ${agents.description} ... ${agents.content}\<close>\<close>
  | ErrorGettingAgents string
    \<comment> \<open>\<^verbatim>\<open>Error getting AGENTS.md: ${message}\<close>\<close>

text \<open>
  The results. \<^verbatim>\<open>error?: boolean\<close> is \<^verbatim>\<open>true\<close> or left out: \<open>False\<close> is the flag
  left out. \<^verbatim>\<open>fileErrors\<close> is set only when there is a failure: \<open>None\<close> is the field
  left out.
\<close>

record result_base =
  message :: message
  error :: bool

record rules_result = result_base +
  rules :: "CursorRule list"
  fileErrors :: "string list option"

record agents_result = result_base +
  agents :: "AgentRule option"

section \<open>The environment\<close>

text \<open>
  What the services call and the repository does not define: Node's \<^verbatim>\<open>process.cwd\<close>,
  \<^verbatim>\<open>path\<close> and \<^verbatim>\<open>fs/promises\<close>, the \<^verbatim>\<open>minimatch\<close> library on two strings, and the
  frontmatter parser (the services' tests replace it by a mock as well).
  \<^verbatim>\<open>join\<close>, \<^verbatim>\<open>extname\<close> and \<^verbatim>\<open>basename\<close> are total on strings. Everything else may
  throw: \<^verbatim>\<open>process.cwd\<close>, the file system, the parser, \<^verbatim>\<open>resolve\<close> and \<^verbatim>\<open>relative\<close>
  (they call \<^verbatim>\<open>process.cwd\<close> on a relative path) and \<^verbatim>\<open>minimatch\<close> (it rejects a
  pattern that is too long).
\<close>

record node_env =
  cwd :: "js_error + string"
  join :: "string list \<Rightarrow> string"
  extname :: "string \<Rightarrow> string"
  basename :: "string \<Rightarrow> string"
  resolve :: "string \<Rightarrow> js_error + string"
  relative :: "string \<Rightarrow> string \<Rightarrow> js_error + string"
  readdir :: "string \<Rightarrow> js_error + string list"
  readFile :: "string \<Rightarrow> js_error + string"
  access :: "string \<Rightarrow> js_error + unit"
  minimatch :: "string \<Rightarrow> string \<Rightarrow> js_error + bool"
  parser :: "string \<Rightarrow> js_error + (frontmatter \<times> string)"

text \<open>
  \<^verbatim>\<open>const rootDir = projectRoot || process.cwd()\<close>: the argument is optional, and the
  empty string is falsy like \<^verbatim>\<open>undefined\<close>.
\<close>

definition root_dir :: "node_env \<Rightarrow> string option \<Rightarrow> js_error + string" where
  "root_dir env projectRoot =
     (case projectRoot of
        None \<Rightarrow> cwd env
      | Some r \<Rightarrow> if r \<noteq> [] then Inr r else cwd env)"

section \<open>CursorRulesService\<close>

type_synonym rules_cache = "string \<rightharpoonup> CursorRule list"

text \<open>
  The object pushed for one file (lines 51 to 61 of the service):
  \<^verbatim>\<open>description: frontmatter.description || 'No description'\<close>,
  \<^verbatim>\<open>globs: Array.isArray(frontmatter.globs) ? frontmatter.globs
        : frontmatter.globs ? [frontmatter.globs] : []\<close>,
  \<^verbatim>\<open>alwaysApply: frontmatter.alwaysApply || false\<close>.
\<close>

definition make_globs :: "jsval \<Rightarrow> jsval list" where
  "make_globs g =
     (case g of
        JArr xs \<Rightarrow> xs
      | _ \<Rightarrow> if js_truthy g then [g] else [])"

definition make_rule :: "string \<Rightarrow> frontmatter \<Rightarrow> string \<Rightarrow> CursorRule" where
  "make_rule f fm ruleContent =
     \<lparr> file_name = f,
       description = js_or (fm_get fm ''description'') (JStr ''No description''),
       content = ruleContent,
       globs = make_globs (fm_get fm ''globs''),
       alwaysApply = js_or (fm_get fm ''alwaysApply'') (JBool False) \<rparr>"

text \<open>The body of the inner \<^verbatim>\<open>try\<close>: read the file, parse it, build the rule.\<close>

definition read_rule :: "node_env \<Rightarrow> string \<Rightarrow> string \<Rightarrow> js_error + CursorRule" where
  "read_rule env rulesDir f =
     (case readFile env (join env [rulesDir, f]) of
        Inl e \<Rightarrow> Inl e
      | Inr text \<Rightarrow>
          (case parser env text of
             Inl e \<Rightarrow> Inl e
           | Inr (fm, ruleContent) \<Rightarrow> Inr (make_rule f fm ruleContent)))"

definition file_error :: "string \<Rightarrow> js_error \<Rightarrow> string" where
  "file_error f e = ''Error reading rule file '' @ f @ '': '' @ err_message e"

text \<open>
  The loop \<^verbatim>\<open>for (const file of mdcFiles)\<close>, with the two arrays it pushes to as
  accumulators; the \<^verbatim>\<open>catch\<close> of one file pushes a message and the loop goes on.
\<close>

fun load_files ::
  "node_env \<Rightarrow> string \<Rightarrow> string list \<Rightarrow> CursorRule list \<Rightarrow> string list
     \<Rightarrow> CursorRule list \<times> string list" where
  "load_files env rulesDir [] rs errs = (rs, errs)"
| "load_files env rulesDir (f # fs) rs errs =
     (case read_rule env rulesDir f of
        Inr r \<Rightarrow> load_files env rulesDir fs (rs @ [r]) errs
      | Inl e \<Rightarrow> load_files env rulesDir fs rs (errs @ [file_error f e]))"

text \<open>\<^verbatim>\<open>const rulesDir = join(rootDir, '.cursor', 'rules')\<close>.\<close>

definition rules_dir :: "node_env \<Rightarrow> string \<Rightarrow> string" where
  "rules_dir env rootDir = join env [rootDir, ''.cursor'', ''rules'']"

text \<open>\<^verbatim>\<open>const mdcFiles = files.filter((file) => extname(file) === '.mdc')\<close>.\<close>

definition mdc_files :: "node_env \<Rightarrow> string list \<Rightarrow> string list" where
  "mdc_files env files = filter (\<lambda>f. extname env f = ''.mdc'') files"

definition loadRules ::
  "node_env \<Rightarrow> rules_cache \<Rightarrow> string option \<Rightarrow> rules_result \<times> rules_cache" where
  "loadRules env cache projectRoot =
     (case root_dir env projectRoot of
        Inl e \<Rightarrow>
          (\<lparr> message = ErrorLoadingRules (err_message e), error = True,
             rules = [], fileErrors = None \<rparr>, cache)
      | Inr rootDir \<Rightarrow>
          (let rulesDir = rules_dir env rootDir in
           case readdir env rulesDir of
             Inl e \<Rightarrow>
               (\<lparr> message = NoRulesDirectory rulesDir, error = True,
                  rules = [], fileErrors = None \<rparr>, cache)
           | Inr files \<Rightarrow>
               (let mdcFiles = mdc_files env files;
                    (rs, errs) = load_files env rulesDir mdcFiles [] []
                in (\<lparr> message = LoadedRules rs rulesDir errs, error = False,
                      rules = rs,
                      fileErrors = (if errs \<noteq> [] then Some errs else None) \<rparr>,
                    cache(rootDir \<mapsto> rs)))))"

text \<open>
  Line 124: \<^verbatim>\<open>const relativePath = relative(rootDir, resolve(filePath))\<close>; the argument
  is evaluated first, and a throw of either call leaves the \<^verbatim>\<open>try\<close> block.
\<close>

definition relativePath :: "node_env \<Rightarrow> string \<Rightarrow> string \<Rightarrow> js_error + string" where
  "relativePath env rootDir filePath =
     (case resolve env filePath of
        Inl e \<Rightarrow> Inl e
      | Inr absolute \<Rightarrow> relative env rootDir absolute)"

text \<open>
  The loops of the matcher (lines 126 to 142). The condition of line 134 to 136 is
  \<^verbatim>\<open>minimatch(relativePath, glob) || minimatch(basename(filePath), glob)\<close>: the second
  call is made only when the first one returns false, and either call may throw;
  \<^verbatim>\<open>minimatch\<close> throws a \<^verbatim>\<open>TypeError\<close> on a pattern that is not a string. \<^verbatim>\<open>break\<close>
  leaves the inner loop at the first pattern that matches, \<^verbatim>\<open>continue\<close> skips it for a
  rule whose \<^verbatim>\<open>alwaysApply\<close> is truthy. The test \<^verbatim>\<open>Array.isArray(rule.globs)\<close> always
  holds, \<open>globs\<close> being a list.
\<close>

fun globs_loop :: "node_env \<Rightarrow> string \<Rightarrow> string \<Rightarrow> jsval list \<Rightarrow> js_error + bool" where
  "globs_loop env rel base [] = Inr False"
| "globs_loop env rel base (g # gs) =
     (case g of
        JStr p \<Rightarrow>
          (case minimatch env rel p of
             Inl e \<Rightarrow> Inl e
           | Inr first \<Rightarrow>
               if first then Inr True
               else
                 (case minimatch env base p of
                    Inl e \<Rightarrow> Inl e
                  | Inr second \<Rightarrow>
                      if second then Inr True else globs_loop env rel base gs))
      | _ \<Rightarrow> Inl (TypeError ''invalid pattern''))"

fun rules_loop ::
  "node_env \<Rightarrow> string \<Rightarrow> string \<Rightarrow> CursorRule list \<Rightarrow> CursorRule list
     \<Rightarrow> js_error + CursorRule list" where
  "rules_loop env filePath rel [] applicable = Inr applicable"
| "rules_loop env filePath rel (rule # rest) applicable =
     (if js_truthy (alwaysApply rule)
      then rules_loop env filePath rel rest (applicable @ [rule])
      else
        (case globs_loop env rel (basename env filePath) (globs rule) of
           Inl e \<Rightarrow> Inl e
         | Inr matched \<Rightarrow>
             rules_loop env filePath rel rest
               (if matched then applicable @ [rule] else applicable)))"

text \<open>
  The matcher, lines 123 to 142 as one function: the list \<^verbatim>\<open>applicableRules\<close> when the
  block completes, the error when a call in it throws.
\<close>

definition applicableRules ::
  "node_env \<Rightarrow> string \<Rightarrow> string \<Rightarrow> CursorRule list \<Rightarrow> js_error + CursorRule list" where
  "applicableRules env filePath rootDir rs =
     (case relativePath env rootDir filePath of
        Inl e \<Rightarrow> Inl e
      | Inr rel \<Rightarrow> rules_loop env filePath rel rs [])"

text \<open>\<^verbatim>\<open>this.rulesCache.get(rootDir) || []\<close>: a cached array is truthy even when empty.\<close>

definition cached_rules :: "rules_cache \<Rightarrow> string \<Rightarrow> CursorRule list" where
  "cached_rules cache rootDir = (case cache rootDir of None \<Rightarrow> [] | Some xs \<Rightarrow> xs)"

text \<open>
  Lines 109 to 111: \<^verbatim>\<open>if (!this.rulesCache.has(rootDir)) await this.loadRules(rootDir)\<close>.
  The result of the load is dropped; only its effect on the cache is kept.
\<close>

definition ensure_loaded :: "node_env \<Rightarrow> rules_cache \<Rightarrow> string \<Rightarrow> rules_cache" where
  "ensure_loaded env cache rootDir =
     (if cache rootDir = None then snd (loadRules env cache (Some rootDir)) else cache)"

definition getRulesForFile ::
  "node_env \<Rightarrow> rules_cache \<Rightarrow> string \<Rightarrow> string option \<Rightarrow> rules_result \<times> rules_cache" where
  "getRulesForFile env cache filePath projectRoot =
     (case root_dir env projectRoot of
        Inl e \<Rightarrow>
          (\<lparr> message = ErrorGettingRules (err_message e), error = True,
             rules = [], fileErrors = None \<rparr>, cache)
      | Inr rootDir \<Rightarrow>
          (let cache1 = ensure_loaded env cache rootDir;
               rs = cached_rules cache1 rootDir
           in if rs = [] then
                (\<lparr> message = NoRulesFound, error = True,
                   rules = [], fileErrors = None \<rparr>, cache1)
              else
                (case relativePath env rootDir filePath of
                   Inl e \<Rightarrow>
                     (\<lparr> message = ErrorGettingRules (err_message e), error = True,
                        rules = [], fileErrors = None \<rparr>, cache1)
                 | Inr rel \<Rightarrow>
                     (case rules_loop env filePath rel rs [] of
                        Inl e \<Rightarrow>
                          (\<lparr> message = ErrorGettingRules (err_message e), error = True,
                             rules = [], fileErrors = None \<rparr>, cache1)
                      | Inr applicable \<Rightarrow>
                          if applicable = [] then
                            (\<lparr> message = NoRulesApply filePath rel,
                               error = False, rules = [], fileErrors = None \<rparr>, cache1)
                          else
                            (\<lparr> message = ApplicableRules filePath applicable,
                               error = False, rules = applicable, fileErrors = None \<rparr>,
                             cache1)))))"

definition getCachedRules :: "node_env \<Rightarrow> rules_cache \<Rightarrow> string option \<Rightarrow> js_error + CursorRule list" where
  "getCachedRules env cache projectRoot =
     (case root_dir env projectRoot of
        Inl e \<Rightarrow> Inl e
      | Inr rootDir \<Rightarrow> Inr (cached_rules cache rootDir))"

text \<open>
  \<^verbatim>\<open>clearCache(projectRoot?)\<close>: \<^verbatim>\<open>if (projectRoot) delete else clear\<close>, so the empty
  string clears every entry, like no argument.
\<close>

definition clearCache :: "rules_cache \<Rightarrow> string option \<Rightarrow> rules_cache" where
  "clearCache cache projectRoot =
     (case projectRoot of
        None \<Rightarrow> Map.empty
      | Some r \<Rightarrow> if r \<noteq> [] then cache(r := None) else Map.empty)"

section \<open>AgentsService\<close>

type_synonym agents_cache = "string \<rightharpoonup> AgentRule"

definition make_agent :: "frontmatter \<Rightarrow> string \<Rightarrow> AgentRule" where
  "make_agent fm agentContent =
     \<lparr> file_name = ''AGENTS.md'',
       description = js_or (fm_get fm ''description'') (JStr ''Agent rules and guidelines''),
       content = agentContent,
       metadata = fm \<rparr>"

definition loadAgents ::
  "node_env \<Rightarrow> agents_cache \<Rightarrow> string option \<Rightarrow> agents_result \<times> agents_cache" where
  "loadAgents env cache projectRoot =
     (case root_dir env projectRoot of
        Inl e \<Rightarrow>
          (\<lparr> message = ErrorLoadingAgents (err_message e), error = True,
             agents = None \<rparr>, cache)
      | Inr rootDir \<Rightarrow>
          (let agentsPath = join env [rootDir, ''AGENTS.md''] in
           case access env agentsPath of
             Inl e \<Rightarrow>
               (\<lparr> message = NoAgentsFile agentsPath, error = True,
                  agents = None \<rparr>, cache)
           | Inr _ \<Rightarrow>
               (case readFile env agentsPath of
                  Inl e \<Rightarrow>
                    (\<lparr> message = ErrorLoadingAgents (err_message e), error = True,
                       agents = None \<rparr>, cache)
                | Inr text \<Rightarrow>
                    (case parser env text of
                       Inl e \<Rightarrow>
                         (\<lparr> message = ErrorLoadingAgents (err_message e), error = True,
                            agents = None \<rparr>, cache)
                     | Inr (fm, agentContent) \<Rightarrow>
                         (let agent = make_agent fm agentContent in
                          (\<lparr> message = LoadedAgents agentsPath (description agent),
                             error = False, agents = Some agent \<rparr>,
                           cache(rootDir \<mapsto> agent)))))))"

text \<open>
  \<^verbatim>\<open>getAgents\<close>, from the second read of the cache on (lines 73 to 88): \<^verbatim>\<open>!agents\<close>
  holds exactly when the cache has no entry, since an entry is always an object.
\<close>

definition present_agents :: "agents_cache \<Rightarrow> string \<Rightarrow> agents_result \<times> agents_cache" where
  "present_agents cache rootDir =
     (case cache rootDir of
        None \<Rightarrow>
          (\<lparr> message = NoAgentsFound, error = True, agents = None \<rparr>, cache)
      | Some a \<Rightarrow>
          (\<lparr> message = AgentsContent (description a) (content a),
             error = False, agents = Some a \<rparr>, cache))"

text \<open>
  \<^verbatim>\<open>getAgents\<close>: the implicit load is called with the resolved root, and its result is
  read only for the error flag and the message.
\<close>

definition getAgents ::
  "node_env \<Rightarrow> agents_cache \<Rightarrow> string option \<Rightarrow> agents_result \<times> agents_cache" where
  "getAgents env cache projectRoot =
     (case root_dir env projectRoot of
        Inl e \<Rightarrow>
          (\<lparr> message = ErrorGettingAgents (err_message e), error = True,
             agents = None \<rparr>, cache)
      | Inr rootDir \<Rightarrow>
          if cache rootDir = None then
            (let (res, cache1) = loadAgents env cache (Some rootDir) in
             if error res then
               (\<lparr> message = message res, error = True, agents = None \<rparr>, cache1)
             else present_agents cache1 rootDir)
          else present_agents cache rootDir)"

definition getCachedAgents :: "node_env \<Rightarrow> agents_cache \<Rightarrow> string option \<Rightarrow> js_error + AgentRule option" where
  "getCachedAgents env cache projectRoot =
     (case root_dir env projectRoot of
        Inl e \<Rightarrow> Inl e
      | Inr rootDir \<Rightarrow> Inr (cache rootDir))"

definition clearAgentsCache :: "agents_cache \<Rightarrow> string option \<Rightarrow> agents_cache" where
  "clearAgentsCache cache projectRoot =
     (case projectRoot of
        None \<Rightarrow> Map.empty
      | Some r \<Rightarrow> if r \<noteq> [] then cache(r := None) else Map.empty)"

section \<open>The frontmatter parser\<close>

text \<open>
  Modelled from the spec: the module \<^verbatim>\<open>utils/frontmatter-parser\<close> with
  \<^verbatim>\<open>parseFrontmatter\<close> is imported by both services but its source is not among the
  files; only its test is. The definitions of this section follow section 4.1 of the
  specification step by step and agree with every case of that test. Strings are lists
  of bytes; white space is the ASCII white space.
\<close>

definition newline :: char where
  "newline = CHR 0x0A"

definition backslash :: char where
  "backslash = CHR 0x5C"

definition dquote :: char where
  "dquote = CHR 0x22"

definition squote :: char where
  "squote = CHR 0x27"

text \<open>
  Modelled from the spec: splitting a text at a separator character (the document into
  lines, the inside of brackets at commas). The result always has at least one piece.
\<close>

fun split_on :: "char \<Rightarrow> string \<Rightarrow> string list" where
  "split_on sep [] = [[]]"
| "split_on sep (c # cs) =
     (if c = sep then [] # split_on sep cs
      else (case split_on sep cs of
              [] \<Rightarrow> [[c]]
            | piece # pieces \<Rightarrow> (c # piece) # pieces))"

text \<open>Modelled from the spec: the lines after the header, rejoined with newlines.\<close>

fun join_with :: "char \<Rightarrow> string list \<Rightarrow> string" where
  "join_with sep [] = []"
| "join_with sep [x] = x"
| "join_with sep (x # y # ys) = x @ sep # join_with sep (y # ys)"

definition is_space :: "char \<Rightarrow> bool" where
  "is_space c = (c = CHR '' '' \<or> c = CHR 0x09 \<or> c = CHR 0x0A \<or> c = CHR 0x0B
                 \<or> c = CHR 0x0C \<or> c = CHR 0x0D)"

text \<open>Modelled from the spec: trimming leading and trailing white space.\<close>

definition trim :: "string \<Rightarrow> string" where
  "trim s = rev (dropWhile is_space (rev (dropWhile is_space s)))"

text \<open>Modelled from the spec: the delimiter token, a line of exactly three hyphens.\<close>

definition delimiter :: string where
  "delimiter = ''---''"

text \<open>
  Modelled from the spec: step 2, the scan of the lines after the opening delimiter for
  the next line that is exactly the delimiter. It gives the header lines before that line
  and the lines after it, or \<open>None\<close> when the input ends first.
\<close>

fun split_at_delimiter :: "string list \<Rightarrow> (string list \<times> string list) option" where
  "split_at_delimiter [] = None"
| "split_at_delimiter (l # ls) =
     (if l = delimiter then Some ([], ls)
      else (case split_at_delimiter ls of
              None \<Rightarrow> None
            | Some (header, body) \<Rightarrow> Some (l # header, body)))"

text \<open>
  Modelled from the spec: the strict structured-array decoding, "valid JSON-like array
  syntax with double-quoted or bare elements". The model reads one flat array: white
  space between tokens, elements that are double-quoted strings (with the escapes
  one-letter backslash escapes of JSON) or the bare words \<^verbatim>\<open>true\<close>, \<^verbatim>\<open>false\<close>, \<^verbatim>\<open>null\<close> and
  integer literals. Everything else (single quotes, other bare words, a trailing comma,
  nested arrays, fractions, escapes by code point) is a failure of the strict decoding.
\<close>

datatype token = TOpen | TClose | TComma | TString string | TBare string

datatype lex_mode = Outside | InString string | InEscape string | InBare string

definition json_ws :: "char \<Rightarrow> bool" where
  "json_ws c = (c = CHR '' '' \<or> c = CHR 0x09 \<or> c = CHR 0x0A \<or> c = CHR 0x0D)"

definition unescape :: "char \<Rightarrow> char option" where
  "unescape c =
     (if c = dquote then Some dquote
      else if c = backslash then Some backslash
      else if c = CHR ''/'' then Some (CHR ''/'')
      else if c = CHR ''b'' then Some (CHR 0x08)
      else if c = CHR ''f'' then Some (CHR 0x0C)
      else if c = CHR ''n'' then Some (CHR 0x0A)
      else if c = CHR ''r'' then Some (CHR 0x0D)
      else if c = CHR ''t'' then Some (CHR 0x09)
      else None)"

definition emit :: "token list \<Rightarrow> token list option \<Rightarrow> token list option" where
  "emit ts rest = (case rest of None \<Rightarrow> None | Some toks \<Rightarrow> Some (ts @ toks))"

fun lex_json :: "lex_mode \<Rightarrow> string \<Rightarrow> token list option" where
  "lex_json Outside [] = Some []"
| "lex_json (InString acc) [] = None"
| "lex_json (InEscape acc) [] = None"
| "lex_json (InBare acc) [] = Some [TBare (rev acc)]"
| "lex_json Outside (c # cs) =
     (if json_ws c then lex_json Outside cs
      else if c = CHR ''['' then emit [TOpen] (lex_json Outside cs)
      else if c = CHR '']'' then emit [TClose] (lex_json Outside cs)
      else if c = CHR '','' then emit [TComma] (lex_json Outside cs)
      else if c = dquote then lex_json (InString []) cs
      else lex_json (InBare [c]) cs)"
| "lex_json (InString acc) (c # cs) =
     (if c = dquote then emit [TString (rev acc)] (lex_json Outside cs)
      else if c = backslash then lex_json (InEscape acc) cs
      else if of_char c < (32 :: nat) then None
      else lex_json (InString (c # acc)) cs)"
| "lex_json (InEscape acc) (c # cs) =
     (case unescape c of
        None \<Rightarrow> None
      | Some d \<Rightarrow> lex_json (InString (d # acc)) cs)"
| "lex_json (InBare acc) (c # cs) =
     (if json_ws c then emit [TBare (rev acc)] (lex_json Outside cs)
      else if c = CHR '','' then emit [TBare (rev acc), TComma] (lex_json Outside cs)
      else if c = CHR '']'' then emit [TBare (rev acc), TClose] (lex_json Outside cs)
      else if c = CHR ''['' \<or> c = dquote then None
      else lex_json (InBare (c # acc)) cs)"

definition is_digit :: "char \<Rightarrow> bool" where
  "is_digit c = (c \<in> set ''0123456789'')"

definition digits_value :: "string \<Rightarrow> nat" where
  "digits_value ds = foldl (\<lambda>n c. 10 * n + (of_char c - 48)) 0 ds"

definition int_literal :: "string \<Rightarrow> int option" where
  "int_literal s =
     (let negative = (s \<noteq> [] \<and> hd s = CHR ''-'');
          ds = (if negative then tl s else s)
      in if ds = [] \<or> \<not> list_all is_digit ds \<or> (length ds > 1 \<and> hd ds = CHR ''0'')
         then None
         else Some (if negative then - int (digits_value ds) else int (digits_value ds)))"

definition bare_value :: "string \<Rightarrow> jsval option" where
  "bare_value s =
     (if s = ''true'' then Some (JBool True)
      else if s = ''false'' then Some (JBool False)
      else if s = ''null'' then Some JNull
      else map_option JNum (int_literal s))"

fun token_value :: "token \<Rightarrow> jsval option" where
  "token_value (TString s) = Some (JStr s)"
| "token_value (TBare s) = bare_value s"
| "token_value t = None"

fun parse_elements :: "token list \<Rightarrow> jsval list option" where
  "parse_elements [e, TClose] = map_option (\<lambda>v. [v]) (token_value e)"
| "parse_elements (e # TComma # rest) =
     (case token_value e of
        None \<Rightarrow> None
      | Some v \<Rightarrow> map_option ((#) v) (parse_elements rest))"
| "parse_elements ts = None"

definition strict_array :: "string \<Rightarrow> jsval option" where
  "strict_array raw =
     (case lex_json Outside raw of
        None \<Rightarrow> None
      | Some ts \<Rightarrow>
          (case ts of
             TOpen # rest \<Rightarrow>
               if rest = [TClose] then Some (JArr [])
               else map_option JArr (parse_elements rest)
           | _ \<Rightarrow> None))"

text \<open>
  Modelled from the spec: the manual fallback, "strip the outer brackets, split on
  commas, trim each piece, strip one layer of leading/trailing single or double quotes
  from each piece, drop empty pieces".
\<close>

definition is_quote :: "char \<Rightarrow> bool" where
  "is_quote c = (c = dquote \<or> c = squote)"

definition strip_leading_quote :: "string \<Rightarrow> string" where
  "strip_leading_quote s = (case s of [] \<Rightarrow> [] | c # cs \<Rightarrow> if is_quote c then cs else s)"

definition strip_quotes :: "string \<Rightarrow> string" where
  "strip_quotes s = rev (strip_leading_quote (rev (strip_leading_quote s)))"

definition manual_items :: "string \<Rightarrow> string list" where
  "manual_items raw =
     filter (\<lambda>piece. piece \<noteq> [])
       (map (\<lambda>piece. strip_quotes (trim piece)) (split_on (CHR '','') (butlast (tl raw))))"

text \<open>
  Modelled from the spec: step 5, decoding a trimmed raw value by type sniffing. A value
  that starts with \<^verbatim>\<open>[\<close> and ends with \<^verbatim>\<open>]\<close> is decoded strictly first (a decoded value
  that is not a sequence is wrapped in one), manually when that fails; then come the
  literals \<^verbatim>\<open>true\<close> and \<^verbatim>\<open>false\<close>; any other value stays the string it is.
\<close>

definition bracketed :: "string \<Rightarrow> bool" where
  "bracketed raw = (raw \<noteq> [] \<and> hd raw = CHR ''['' \<and> last raw = CHR '']'')"

definition decode_value :: "string \<Rightarrow> jsval" where
  "decode_value raw =
     (if bracketed raw then
        (case strict_array raw of
           Some v \<Rightarrow> (case v of JArr xs \<Rightarrow> JArr xs | _ \<Rightarrow> JArr [v])
         | None \<Rightarrow> JArr (map JStr (manual_items raw)))
      else if raw = ''true'' then JBool True
      else if raw = ''false'' then JBool False
      else JStr raw)"

text \<open>
  Modelled from the spec: step 4, one header line. A line with no colon is skipped;
  otherwise the key is the trimmed text before the first colon and the raw value the
  trimmed text after it.
\<close>

definition header_entry :: "string \<Rightarrow> (string \<times> jsval) option" where
  "header_entry l =
     (if CHR '':'' \<in> set l
      then Some (trim (takeWhile (\<lambda>c. c \<noteq> CHR '':'') l),
                 decode_value (trim (tl (dropWhile (\<lambda>c. c \<noteq> CHR '':'') l))))
      else None)"

text \<open>Modelled from the spec: step 6, the last occurrence of a repeated key wins.\<close>

definition parse_header :: "string list \<Rightarrow> frontmatter" where
  "parse_header ls =
     foldl (\<lambda>m l. case header_entry l of None \<Rightarrow> m | Some (k, v) \<Rightarrow> m(k \<mapsto> v))
       Map.empty ls"

text \<open>
  Modelled from the spec: \<^verbatim>\<open>parse(document)\<close>, steps 1 to 3. With no opening delimiter
  on the first line, or no closing delimiter after it, the result is the empty metadata
  and the document as it is.
\<close>

definition parseFrontmatter :: "string \<Rightarrow> frontmatter \<times> string" where
  "parseFrontmatter document =
     (case split_on newline document of
        [] \<Rightarrow> (Map.empty, document)
      | first # rest \<Rightarrow>
          if first \<noteq> delimiter then (Map.empty, document)
          else
            (case split_at_delimiter rest of
               None \<Rightarrow> (Map.empty, document)
             | Some (header, body) \<Rightarrow>
                 (parse_header header, trim (join_with newline body))))"

section \<open>What the specification says, as predicates\<close>

text \<open>
  The matcher in the words of section 4.3, for a path made relative to the root
  (\<open>rel\<close>) and its base name (\<open>base\<close>): a pattern matches when it glob-matches either
  candidate string; a rule applies when its \<^verbatim>\<open>alwaysApply\<close> is true or one of its patterns
  matches.
\<close>

fun is_boolean :: "jsval \<Rightarrow> bool" where
  "is_boolean (JBool b) = True"
| "is_boolean v = False"

definition spec_pattern_matches :: "node_env \<Rightarrow> string \<Rightarrow> string \<Rightarrow> jsval \<Rightarrow> bool" where
  "spec_pattern_matches env rel base g =
     (case g of
        JStr p \<Rightarrow> minimatch env rel p = Inr True \<or> minimatch env base p = Inr True
      | _ \<Rightarrow> False)"

definition spec_rule_applies :: "node_env \<Rightarrow> string \<Rightarrow> string \<Rightarrow> CursorRule \<Rightarrow> bool" where
  "spec_rule_applies env rel base r =
     (alwaysApply r = JBool True \<or> list_ex (spec_pattern_matches env rel base) (globs r))"

text \<open>
  What evaluating one pattern gives: a match, no match, or the fault of the call that
  throws (a pattern that is not a string, or \<^verbatim>\<open>minimatch\<close> throwing on the relative
  path or, when that one does not match, on the base name).
\<close>

definition spec_pattern_outcome ::
  "node_env \<Rightarrow> string \<Rightarrow> string \<Rightarrow> jsval \<Rightarrow> js_error + bool" where
  "spec_pattern_outcome env rel base g =
     (case g of
        JStr p \<Rightarrow>
          (case minimatch env rel p of
             Inl e \<Rightarrow> Inl e
           | Inr first \<Rightarrow> if first then Inr True else minimatch env base p)
      | _ \<Rightarrow> Inl (TypeError ''invalid pattern''))"

text \<open>
  What evaluating one rule gives. With \<^verbatim>\<open>alwaysApply\<close> true no pattern is evaluated.
  Otherwise the patterns are evaluated in order and the first one that does not give
  "no match" decides: it matches (first match wins) or it is a fault; the patterns
  after it are not evaluated.
\<close>

definition spec_rule_outcome ::
  "node_env \<Rightarrow> string \<Rightarrow> string \<Rightarrow> CursorRule \<Rightarrow> js_error + bool" where
  "spec_rule_outcome env rel base r =
     (if alwaysApply r = JBool True then Inr True
      else
        (case List.find (\<lambda>g. spec_pattern_outcome env rel base g \<noteq> Inr False) (globs r) of
           None \<Rightarrow> Inr False
         | Some g \<Rightarrow> spec_pattern_outcome env rel base g))"

text \<open>
  What the matcher gives: the fault of making the path relative; else the fault of the
  first rule whose evaluation is a fault; else the rules that apply, in the order of the
  list.
\<close>

definition spec_applicable ::
  "node_env \<Rightarrow> string \<Rightarrow> string \<Rightarrow> CursorRule list \<Rightarrow> js_error + CursorRule list" where
  "spec_applicable env filePath rootDir rs =
     (case relativePath env rootDir filePath of
        Inl e \<Rightarrow> Inl e
      | Inr rel \<Rightarrow>
          (case List.find (\<lambda>r. isl (spec_rule_outcome env rel (basename env filePath) r)) rs of
             Some r \<Rightarrow> Inl (projl (spec_rule_outcome env rel (basename env filePath) r))
           | None \<Rightarrow>
               Inr (filter (\<lambda>r. spec_rule_applies env rel (basename env filePath) r) rs)))"

text \<open>
  The batch load in the words of section 4.2: each entry on its own gives a record or a
  failure message.
\<close>

definition loaded_rule :: "node_env \<Rightarrow> string \<Rightarrow> string \<Rightarrow> CursorRule option" where
  "loaded_rule env rulesDir f =
     (case read_rule env rulesDir f of Inr r \<Rightarrow> Some r | Inl e \<Rightarrow> None)"

definition failure_entry :: "node_env \<Rightarrow> string \<Rightarrow> string \<Rightarrow> string option" where
  "failure_entry env rulesDir f =
     (case read_rule env rulesDir f of Inr r \<Rightarrow> None | Inl e \<Rightarrow> Some (file_error f e))"

section \<open>A small environment for concrete instances\<close>

text \<open>
  In the manner of the mocks of the services' tests: three project roots (one with two
  readable rule files and an unreadable one, one with no rule file, one whose two rule
  files both fail), absolute paths only, and a matcher that knows a literal name and a
  pattern \<^verbatim>\<open>*suffix\<close> on a path without separator, and throws on a pattern of more than
  65536 characters as \<^verbatim>\<open>minimatch\<close> does.
\<close>

definition fixture_join :: "string list \<Rightarrow> string" where
  "fixture_join ps = foldr (\<lambda>p acc. if acc = [] then p else p @ ''/'' @ acc) ps []"

definition fixture_basename :: "string \<Rightarrow> string" where
  "fixture_basename p = rev (takeWhile (\<lambda>c. c \<noteq> CHR ''/'') (rev p))"

definition fixture_minimatch :: "string \<Rightarrow> string \<Rightarrow> js_error + bool" where
  "fixture_minimatch path pat =
     (if length pat > 65536 then Inl (TypeError ''pattern is too long'')
      else
        Inr (case pat of
               c # suffix \<Rightarrow>
                 if c = CHR ''*''
                 then CHR ''/'' \<notin> set path
                      \<and> suffix = drop (length path - length suffix) path
                 else path = pat
             | [] \<Rightarrow> path = []))"

definition fixture_parser :: "string \<Rightarrow> js_error + (frontmatter \<times> string)" where
  "fixture_parser text =
     (if text = ''ts content'' then
        Inr ([''description'' \<mapsto> JStr ''TypeScript rules'',
              ''globs'' \<mapsto> JArr [JStr ''*.ts'', JStr ''*.tsx''],
              ''alwaysApply'' \<mapsto> JBool False], ''TypeScript specific rules'')
      else if text = ''global content'' then
        Inr ([''description'' \<mapsto> JStr ''Global rules'',
              ''globs'' \<mapsto> JArr [],
              ''alwaysApply'' \<mapsto> JBool True], ''Always apply these rules'')
      else if text = ''broken'' then Inl (Error ''Cannot parse'')
      else Inr (Map.empty, text))"

definition fixture_env :: node_env where
  "fixture_env =
     \<lparr> cwd = Inr ''/test/project'',
       join = fixture_join,
       extname = (\<lambda>f. drop (length f - 4) f),
       basename = fixture_basename,
       resolve = (\<lambda>p. Inr p),
       relative = (\<lambda>root p. Inr (drop (Suc (length root)) p)),
       readdir = (\<lambda>d.
         if d = ''/test/project/.cursor/rules''
         then Inr [''typescript.mdc'', ''bad.mdc'', ''global.mdc'', ''ignored.txt'']
         else if d = ''/empty/.cursor/rules'' then Inr []
         else if d = ''/failing/.cursor/rules'' then Inr [''bad.mdc'', ''broken.mdc'']
         else Inl (Error ''Directory not found'')),
       readFile = (\<lambda>p.
         if p = ''/test/project/.cursor/rules/typescript.mdc'' then Inr ''ts content''
         else if p = ''/test/project/.cursor/rules/global.mdc'' then Inr ''global content''
         else if p = ''/failing/.cursor/rules/broken.mdc'' then Inr ''broken''
         else if p = ''/test/project/AGENTS.md'' then Inr ''Agent guidance''
         else Inl (Error ''Permission denied'')),
       access = (\<lambda>p.
         if p = ''/test/project/AGENTS.md'' then Inr ()
         else Inl (Error ''ENOENT'')),
       minimatch = fixture_minimatch,
       parser = fixture_parser \<rparr>"

definition ts_rule :: CursorRule where
  "ts_rule = \<lparr> file_name = ''typescript.mdc'', description = JStr ''TypeScript rules'',
       content = ''TypeScript specific rules'',
       globs = [JStr ''*.ts'', JStr ''*.tsx''], alwaysApply = JBool False \<rparr>"

definition global_rule :: CursorRule where
  "global_rule = \<lparr> file_name = ''global.mdc'', description = JStr ''Global rules'',
       content = ''Always apply these rules'',
       globs = [], alwaysApply = JBool True \<rparr>"

definition css_rule :: CursorRule where
  "css_rule = \<lparr> file_name = ''css.mdc'', description = JStr ''Style sheets'',
       content = ''Style rules'',
       globs = [JStr ''*.css''], alwaysApply = JBool False \<rparr>"

definition always_rule :: CursorRule where
  "always_rule = \<lparr> file_name = ''always.mdc'', description = JStr ''Always'',
       content = ''Applies to every file'',
       globs = [JBool True], alwaysApply = JBool True \<rparr>"

definition tsx_rule :: CursorRule where
  "tsx_rule = \<lparr> file_name = ''tsx.mdc'', description = JStr ''Components'',
       content = ''Component rules'',
       globs = [JStr ''*.tsx'', JBool True], alwaysApply = JBool False \<rparr>"

section \<open>Building the records\<close>

lemma js_or_falsy: "\<not> js_truthy a \<Longrightarrow> js_or a b = b"
  by (simp add: js_or_def)

lemma js_or_truthy: "js_truthy a \<Longrightarrow> js_or a b = a"
  by (simp add: js_or_def)

text \<open>
  C7, evaluated on the code: a rule file whose header has the line \<^verbatim>\<open>alwaysApply: no\<close>
  gives the frontmatter value the string \<^verbatim>\<open>"no"\<close>. \<^verbatim>\<open>"no" || false\<close> is \<^verbatim>\<open>"no"\<close>, so
  the record's \<^verbatim>\<open>alwaysApply\<close> is that string, not the boolean false, and since the
  string is truthy the loop of the matcher includes the rule for every path: the matcher
  returns it whenever the path can be made relative to the root.
\<close>

theorem alwaysApply_keeps_truthy_string:
  "alwaysApply (make_rule ''style.mdc'' [''alwaysApply'' \<mapsto> JStr ''no''] ''Body'') = JStr ''no''
   \<and> rules_loop env filePath rel
         [make_rule ''style.mdc'' [''alwaysApply'' \<mapsto> JStr ''no''] ''Body''] []
       = Inr [make_rule ''style.mdc'' [''alwaysApply'' \<mapsto> JStr ''no''] ''Body'']
   \<and> applicableRules env filePath rootDir
         [make_rule ''style.mdc'' [''alwaysApply'' \<mapsto> JStr ''no''] ''Body'']
       = (case relativePath env rootDir filePath of
            Inl e \<Rightarrow> Inl e
          | Inr rel \<Rightarrow>
              Inr [make_rule ''style.mdc'' [''alwaysApply'' \<mapsto> JStr ''no''] ''Body''])
   \<and> applicableRules fixture_env ''/test/project/src/main.ts'' ''/test/project''
         [make_rule ''style.mdc'' [''alwaysApply'' \<mapsto> JStr ''no''] ''Body'']
       = Inr [make_rule ''style.mdc'' [''alwaysApply'' \<mapsto> JStr ''no''] ''Body'']"
  by (simp add: make_rule_def js_or_def fm_get_def applicableRules_def relativePath_def
      fixture_env_def split: sum.splits)

text \<open>
  C10: when the metadata value of \<^verbatim>\<open>description\<close> is falsy (the empty string as well
  as an absent key), a rule record's description is \<^verbatim>\<open>No description\<close> and the agent
  document's is \<^verbatim>\<open>Agent rules and guidelines\<close>.
\<close>

theorem description_default_on_falsy:
  assumes "\<not> js_truthy (fm_get fm ''description'')"
  shows "description (make_rule f fm ruleContent) = JStr ''No description''
         \<and> description (make_agent fm agentContent) = JStr ''Agent rules and guidelines''"
  using assms by (simp add: make_rule_def make_agent_def js_or_falsy)

theorem description_default_on_falsy_witness:
  "fm_get [''description'' \<mapsto> JStr ''''] ''description'' = JStr ''''
   \<and> description (make_rule ''a.mdc'' [''description'' \<mapsto> JStr ''''] ''Body'')
       = JStr ''No description''
   \<and> description (make_agent [''description'' \<mapsto> JStr ''''] ''Body'')
       = JStr ''Agent rules and guidelines''"
proof -
  have falsy: "\<not> js_truthy (fm_get [''description'' \<mapsto> JStr ''''] ''description'')"
    by (simp add: fm_get_def)
  show ?thesis
    using description_default_on_falsy [OF falsy, of "''a.mdc''" "''Body''" "''Body''"]
    by (simp add: fm_get_def)
qed

section \<open>The caches\<close>

text \<open>
  A key of either cache is a resolved root, \<^verbatim>\<open>projectRoot || process.cwd()\<close>, which is
  never the empty string as long as \<^verbatim>\<open>process.cwd()\<close> is not: the loads keep the empty
  string out of the cache.
\<close>

lemma root_dir_nonempty:
  "cwd env \<noteq> Inr [] \<Longrightarrow> root_dir env projectRoot = Inr r \<Longrightarrow> r \<noteq> []"
  by (auto simp: root_dir_def split: option.splits if_splits)

lemma loadRules_keys_nonempty:
  assumes "cwd env \<noteq> Inr []" and "[] \<notin> dom cache"
  shows "[] \<notin> dom (snd (loadRules env cache projectRoot))"
proof (cases "root_dir env projectRoot")
  case (Inl e)
  then show ?thesis using assms by (simp add: loadRules_def)
next
  case (Inr r)
  then have "r \<noteq> []" using assms(1) root_dir_nonempty by blast
  then show ?thesis using assms(2) Inr
    by (auto simp: loadRules_def Let_def split: sum.splits prod.splits)
qed

lemma loadAgents_keys_nonempty:
  assumes "cwd env \<noteq> Inr []" and "[] \<notin> dom cache"
  shows "[] \<notin> dom (snd (loadAgents env cache projectRoot))"
proof (cases "root_dir env projectRoot")
  case (Inl e)
  then show ?thesis using assms by (simp add: loadAgents_def)
next
  case (Inr r)
  then have "r \<noteq> []" using assms(1) root_dir_nonempty by blast
  then show ?thesis using assms(2) Inr
    by (auto simp: loadAgents_def Let_def split: sum.splits prod.splits)
qed

lemma clearCache_keys_nonempty:
  "[] \<notin> dom cache \<Longrightarrow> [] \<notin> dom (clearCache cache projectRoot)"
  "[] \<notin> dom acache \<Longrightarrow> [] \<notin> dom (clearAgentsCache acache projectRoot)"
  by (auto simp: clearCache_def clearAgentsCache_def split: option.splits if_splits)

lemma getRulesForFile_cache:
  "snd (getRulesForFile env cache filePath projectRoot)
     = (case root_dir env projectRoot of
          Inl e \<Rightarrow> cache
        | Inr rootDir \<Rightarrow> ensure_loaded env cache rootDir)"
  by (auto simp: getRulesForFile_def Let_def split: sum.splits)

lemma getRulesForFile_keys_nonempty:
  assumes "cwd env \<noteq> Inr []" and "[] \<notin> dom cache"
  shows "[] \<notin> dom (snd (getRulesForFile env cache filePath projectRoot))"
  using assms loadRules_keys_nonempty [OF assms]
  by (simp add: getRulesForFile_cache ensure_loaded_def split: sum.splits)

lemma getAgents_keys_nonempty:
  assumes "cwd env \<noteq> Inr []" and "[] \<notin> dom cache"
  shows "[] \<notin> dom (snd (getAgents env cache projectRoot))"
proof (cases "root_dir env projectRoot")
  case (Inl e)
  then show ?thesis using assms by (simp add: getAgents_def)
next
  case (Inr r)
  show ?thesis
    using assms(2) Inr loadAgents_keys_nonempty [OF assms, of "Some r"]
    by (auto simp: getAgents_def present_agents_def split: prod.splits option.splits)
qed

text \<open>
  C8: in a cache whose keys are resolved roots (none is the empty string), for two
  distinct roots \<open>R1\<close> and \<open>R2\<close> with cached entries, clearing \<open>R1\<close> removes the entry
  of \<open>R1\<close> and leaves the entry of \<open>R2\<close> as it was; clearing with no root leaves no
  entry. The same holds of the rules cache and of the agents cache.
\<close>

theorem clearCache_frame:
  assumes "R1 \<noteq> R2"
    and "[] \<notin> dom cache" and "cache R1 = Some rs1" and "cache R2 = Some rs2"
    and "[] \<notin> dom acache" and "acache R1 = Some a1" and "acache R2 = Some a2"
  shows "clearCache cache (Some R1) R1 = None
         \<and> clearCache cache (Some R1) R2 = Some rs2
         \<and> clearCache cache None = Map.empty
         \<and> clearAgentsCache acache (Some R1) R1 = None
         \<and> clearAgentsCache acache (Some R1) R2 = Some a2
         \<and> clearAgentsCache acache None = Map.empty"
proof -
  have "R1 \<noteq> []" using assms(2,3) by auto
  then show ?thesis using assms(1,4,7)
    by (simp add: clearCache_def clearAgentsCache_def)
qed

theorem clearCache_frame_witness:
  "clearCache [''/one'' \<mapsto> [], ''/two'' \<mapsto> [make_rule ''a.mdc'' Map.empty ''Body'']]
       (Some ''/one'') ''/one'' = None
   \<and> clearCache [''/one'' \<mapsto> [], ''/two'' \<mapsto> [make_rule ''a.mdc'' Map.empty ''Body'']]
       (Some ''/one'') ''/two'' = Some [make_rule ''a.mdc'' Map.empty ''Body'']
   \<and> clearAgentsCache [''/one'' \<mapsto> make_agent Map.empty ''A'', ''/two'' \<mapsto> make_agent Map.empty ''B'']
       (Some ''/one'') ''/two'' = Some (make_agent Map.empty ''B'')"
  using clearCache_frame
    [of "''/one''" "''/two''"
        "[''/one'' \<mapsto> [], ''/two'' \<mapsto> [make_rule ''a.mdc'' Map.empty ''Body'']]"
        "[]" "[make_rule ''a.mdc'' Map.empty ''Body'']"
        "[''/one'' \<mapsto> make_agent Map.empty ''A'', ''/two'' \<mapsto> make_agent Map.empty ''B'']"
        "make_agent Map.empty ''A''" "make_agent Map.empty ''B''"]
  by simp

section \<open>The matcher\<close>

lemma globs_loop_outcome:
  "globs_loop env rel base gs
     = (case List.find (\<lambda>g. spec_pattern_outcome env rel base g \<noteq> Inr False) gs of
          None \<Rightarrow> Inr False
        | Some g \<Rightarrow> spec_pattern_outcome env rel base g)"
proof (induction gs)
  case Nil
  then show ?case by simp
next
  case (Cons g gs)
  then show ?case
    by (cases g) (auto simp: spec_pattern_outcome_def split: sum.splits)
qed

lemma boolean_flag_truthy:
  "is_boolean v \<Longrightarrow> js_truthy v = (v = JBool True)"
  by (cases v) auto

lemma rules_loop_step:
  assumes "is_boolean (alwaysApply r)"
  shows "rules_loop env filePath rel (r # rs) acc
     = (case spec_rule_outcome env rel (basename env filePath) r of
          Inl e \<Rightarrow> Inl e
        | Inr matched \<Rightarrow>
            rules_loop env filePath rel rs (if matched then acc @ [r] else acc))"
  using assms
  by (simp add: boolean_flag_truthy spec_rule_outcome_def globs_loop_outcome)

lemma pattern_outcome_match:
  "spec_pattern_outcome env rel base g = Inr True \<Longrightarrow> spec_pattern_matches env rel base g"
  by (cases g) (auto simp: spec_pattern_outcome_def spec_pattern_matches_def
      split: sum.splits if_splits)

lemma pattern_outcome_no_match:
  "spec_pattern_outcome env rel base g = Inr False \<Longrightarrow> \<not> spec_pattern_matches env rel base g"
  by (cases g) (auto simp: spec_pattern_outcome_def spec_pattern_matches_def
      split: sum.splits if_splits)

lemma find_outcome_applies:
  "(case List.find (\<lambda>g. spec_pattern_outcome env rel base g \<noteq> Inr False) gs of
      None \<Rightarrow> Inr False
    | Some g \<Rightarrow> spec_pattern_outcome env rel base g) = Inr b
   \<Longrightarrow> list_ex (spec_pattern_matches env rel base) gs = b"
proof (induction gs)
  case Nil
  then show ?case by simp
next
  case (Cons g gs)
  show ?case
  proof (cases "spec_pattern_outcome env rel base g = Inr False")
    case True
    then show ?thesis using Cons pattern_outcome_no_match [OF True] by simp
  next
    case False
    with Cons.prems have out: "spec_pattern_outcome env rel base g = Inr b" by simp
    with False have "b" by (cases b) auto
    then show ?thesis using out pattern_outcome_match by auto
  qed
qed

lemma rule_outcome_applies:
  "spec_rule_outcome env rel base r = Inr b \<Longrightarrow> spec_rule_applies env rel base r = b"
  by (auto simp: spec_rule_outcome_def spec_rule_applies_def
      dest: find_outcome_applies split: if_splits)

lemma rules_loop_outcome:
  "list_all (\<lambda>r. is_boolean (alwaysApply r)) rs \<Longrightarrow>
   rules_loop env filePath rel rs acc
     = (case List.find (\<lambda>r. isl (spec_rule_outcome env rel (basename env filePath) r)) rs of
          Some r \<Rightarrow> Inl (projl (spec_rule_outcome env rel (basename env filePath) r))
        | None \<Rightarrow>
            Inr (acc @ filter (\<lambda>r. spec_rule_applies env rel (basename env filePath) r) rs))"
proof (induction rs arbitrary: acc)
  case Nil
  then show ?case by simp
next
  case (Cons r rs)
  then have flag: "is_boolean (alwaysApply r)"
    and rest: "list_all (\<lambda>r. is_boolean (alwaysApply r)) rs" by simp_all
  show ?case
  proof (cases "spec_rule_outcome env rel (basename env filePath) r")
    case (Inl e)
    then show ?thesis by (simp add: rules_loop_step [OF flag] del: rules_loop.simps)
  next
    case (Inr b)
    then show ?thesis
      using rule_outcome_applies [OF Inr]
      by (cases b)
         (simp_all add: rules_loop_step [OF flag] Cons.IH [OF rest]
            del: rules_loop.simps split: option.splits)
  qed
qed

lemma count_list_filter_le: "count_list (filter P xs) x \<le> count_list xs x"
  by (induction xs) auto

lemma applicableRules_spec:
  assumes "list_all (\<lambda>r. is_boolean (alwaysApply r)) rs"
  shows "applicableRules env filePath rootDir rs = spec_applicable env filePath rootDir rs"
  by (simp add: applicableRules_def spec_applicable_def rules_loop_outcome [OF assms]
      split: sum.splits option.splits)

text \<open>
  C1, as amended: for a rule list whose \<^verbatim>\<open>alwaysApply\<close> flags are booleans, any path and
  any root, the matcher gives what the specification's evaluation gives: a rule with the
  flag true is taken with none of its patterns evaluated, the patterns of any other rule
  are evaluated in order up to the first that matches, and a call that throws on the
  way (making the path relative, a pattern that is not a string, \<^verbatim>\<open>minimatch\<close>) ends the
  matcher with that fault and no list. When the matcher gives a list, it is the input
  list filtered by "the flag is true, or some pattern glob-matches the path relative to
  the root or the base name": the order is kept and a rule is never returned more often
  than it is listed. A rule with no pattern and the flag false does not apply.
\<close>

theorem applicableRules_outcome:
  assumes "list_all (\<lambda>r. is_boolean (alwaysApply r)) rs"
  shows "applicableRules env filePath rootDir rs = spec_applicable env filePath rootDir rs
         \<and> (\<forall>applicable. applicableRules env filePath rootDir rs = Inr applicable \<longrightarrow>
               (\<exists>rel. relativePath env rootDir filePath = Inr rel
                  \<and> applicable
                      = filter (spec_rule_applies env rel (basename env filePath)) rs
                  \<and> list_all (\<lambda>r. \<not> isl (spec_rule_outcome env rel (basename env filePath) r))
                       rs)
               \<and> (\<forall>r. count_list applicable r \<le> count_list rs r))
         \<and> (\<forall>e. applicableRules env filePath rootDir rs = Inl e \<longrightarrow>
               relativePath env rootDir filePath = Inl e
               \<or> (\<exists>rel. relativePath env rootDir filePath = Inr rel
                     \<and> list_ex (\<lambda>r. spec_rule_outcome env rel (basename env filePath) r = Inl e)
                          rs))
         \<and> (\<forall>rel base r. globs r = [] \<and> alwaysApply r = JBool False
               \<longrightarrow> \<not> spec_rule_applies env rel base r)"
proof -
  have eq: "applicableRules env filePath rootDir rs = spec_applicable env filePath rootDir rs"
    by (rule applicableRules_spec [OF assms])
  have ok: "\<exists>rel. relativePath env rootDir filePath = Inr rel
              \<and> applicable = filter (spec_rule_applies env rel (basename env filePath)) rs
              \<and> list_all (\<lambda>r. \<not> isl (spec_rule_outcome env rel (basename env filePath) r)) rs"
    if "spec_applicable env filePath rootDir rs = Inr applicable" for applicable
    using that
    by (auto simp: spec_applicable_def find_None_iff list_all_iff
        split: sum.splits option.splits)
  have count: "count_list applicable r \<le> count_list rs r"
    if "spec_applicable env filePath rootDir rs = Inr applicable" for applicable r
    using ok [OF that] by (auto simp: count_list_filter_le)
  have fault: "relativePath env rootDir filePath = Inl e
      \<or> (\<exists>rel. relativePath env rootDir filePath = Inr rel
            \<and> list_ex (\<lambda>r. spec_rule_outcome env rel (basename env filePath) r = Inl e) rs)"
    if "spec_applicable env filePath rootDir rs = Inl e" for e
    using that
    by (auto simp: spec_applicable_def list_ex_iff find_Some_iff isl_def
        split: sum.splits option.splits)
  have none: "\<not> spec_rule_applies env rel base r"
    if "globs r = [] \<and> alwaysApply r = JBool False" for rel base r
    using that by (simp add: spec_rule_applies_def)
  show ?thesis
    using eq ok count fault none by metis
qed

lemma fixture_relativePath [simp]:
  "relativePath fixture_env ''/test/project'' ''/test/project/src/component.tsx''
     = Inr ''src/component.tsx''"
  "relativePath fixture_env ''/test/project'' ''/test/project/src/main.ts'' = Inr ''src/main.ts''"
  "relativePath fixture_env ''/test/project'' ''/test/project/README.md'' = Inr ''README.md''"
  by (simp_all add: relativePath_def fixture_env_def)

lemma fixture_basenames [simp]:
  "basename fixture_env ''/test/project/src/component.tsx'' = ''component.tsx''"
  "basename fixture_env ''/test/project/src/main.ts'' = ''main.ts''"
  "basename fixture_env ''/test/project/README.md'' = ''README.md''"
  by (simp_all add: fixture_env_def fixture_basename_def)

lemma fixture_minimatch_short:
  "length pat \<le> 65536 \<Longrightarrow>
   minimatch fixture_env path pat
     = Inr (case pat of
              c # suffix \<Rightarrow>
                if c = CHR ''*''
                then CHR ''/'' \<notin> set path \<and> suffix = drop (length path - length suffix) path
                else path = pat
            | [] \<Rightarrow> path = [])"
  by (simp add: fixture_env_def fixture_minimatch_def)

theorem applicableRules_outcome_witness:
  "list_all (\<lambda>r. is_boolean (alwaysApply r)) [tsx_rule, css_rule, always_rule]
   \<and> globs always_rule = [JBool True]
   \<and> globs tsx_rule = [JStr ''*.tsx'', JBool True]
   \<and> applicableRules fixture_env ''/test/project/src/component.tsx'' ''/test/project''
         [tsx_rule, css_rule, always_rule]
       = Inr [tsx_rule, always_rule]"
proof -
  have typed: "list_all (\<lambda>r. is_boolean (alwaysApply r)) [tsx_rule, css_rule, always_rule]"
    by (simp add: tsx_rule_def css_rule_def always_rule_def)
  have tsx: "spec_rule_outcome fixture_env ''src/component.tsx'' ''component.tsx'' tsx_rule
      = Inr True"
    by (simp add: spec_rule_outcome_def spec_pattern_outcome_def tsx_rule_def
        fixture_minimatch_short)
  have css: "spec_rule_outcome fixture_env ''src/component.tsx'' ''component.tsx'' css_rule
      = Inr False"
    by (simp add: spec_rule_outcome_def spec_pattern_outcome_def css_rule_def
        fixture_minimatch_short)
  have always: "spec_rule_outcome fixture_env ''src/component.tsx'' ''component.tsx'' always_rule
      = Inr True"
    by (simp add: spec_rule_outcome_def always_rule_def)
  have spec: "spec_applicable fixture_env ''/test/project/src/component.tsx'' ''/test/project''
      [tsx_rule, css_rule, always_rule] = Inr [tsx_rule, always_rule]"
    using rule_outcome_applies [OF tsx] rule_outcome_applies [OF css]
      rule_outcome_applies [OF always]
    by (simp add: spec_applicable_def tsx css always)
  have eq: "applicableRules fixture_env ''/test/project/src/component.tsx'' ''/test/project''
      [tsx_rule, css_rule, always_rule]
      = spec_applicable fixture_env ''/test/project/src/component.tsx'' ''/test/project''
          [tsx_rule, css_rule, always_rule]"
    by (rule applicableRules_outcome [OF typed, THEN conjunct1])
  have patterns: "globs always_rule = [JBool True]"
    "globs tsx_rule = [JStr ''*.tsx'', JBool True]"
    by (simp_all add: always_rule_def tsx_rule_def)
  show ?thesis
    using typed eq spec patterns by simp
qed

text \<open>
  C1 as stated fails: a rule file whose header has the line \<^verbatim>\<open>globs: true\<close> gives a rule
  whose pattern list holds the boolean. In a list with an always-apply rule before it,
  the matcher throws at that pattern and returns no list, and \<^verbatim>\<open>getRulesForFile\<close> answers
  with the error flag and no rule: the rule whose flag is true is not in the result.
\<close>

theorem always_apply_rule_lost_to_fault:
  "alwaysApply global_rule = JBool True
   \<and> make_rule ''bad.mdc'' [''globs'' \<mapsto> JBool True] ''Body''
       = \<lparr> file_name = ''bad.mdc'', description = JStr ''No description'', content = ''Body'',
           globs = [JBool True], alwaysApply = JBool False \<rparr>
   \<and> applicableRules fixture_env ''/test/project/src/main.ts'' ''/test/project''
         [global_rule, make_rule ''bad.mdc'' [''globs'' \<mapsto> JBool True] ''Body'']
       = Inl (TypeError ''invalid pattern'')
   \<and> fst (getRulesForFile fixture_env
              [''/test/project'' \<mapsto>
                 [global_rule, make_rule ''bad.mdc'' [''globs'' \<mapsto> JBool True] ''Body'']]
              ''/test/project/src/main.ts'' (Some ''/test/project''))
       = \<lparr> message = ErrorGettingRules ''invalid pattern'', error = True,
           rules = [], fileErrors = None \<rparr>"
proof -
  have made: "make_rule ''bad.mdc'' [''globs'' \<mapsto> JBool True] ''Body''
      = \<lparr> file_name = ''bad.mdc'', description = JStr ''No description'', content = ''Body'',
          globs = [JBool True], alwaysApply = JBool False \<rparr>"
    by (simp add: make_rule_def make_globs_def js_or_def fm_get_def)
  have loop: "rules_loop fixture_env ''/test/project/src/main.ts'' ''src/main.ts''
      [global_rule, make_rule ''bad.mdc'' [''globs'' \<mapsto> JBool True] ''Body''] []
      = Inl (TypeError ''invalid pattern'')"
    unfolding made by (simp add: global_rule_def)
  have flag: "alwaysApply global_rule = JBool True"
    by (simp add: global_rule_def)
  have matcher: "applicableRules fixture_env ''/test/project/src/main.ts'' ''/test/project''
      [global_rule, make_rule ''bad.mdc'' [''globs'' \<mapsto> JBool True] ''Body'']
      = Inl (TypeError ''invalid pattern'')"
    by (simp add: applicableRules_def loop del: rules_loop.simps)
  have answer: "fst (getRulesForFile fixture_env
              [''/test/project'' \<mapsto>
                 [global_rule, make_rule ''bad.mdc'' [''globs'' \<mapsto> JBool True] ''Body'']]
              ''/test/project/src/main.ts'' (Some ''/test/project''))
       = \<lparr> message = ErrorGettingRules ''invalid pattern'', error = True,
           rules = [], fileErrors = None \<rparr>"
    by (simp add: getRulesForFile_def root_dir_def ensure_loaded_def cached_rules_def loop
        del: rules_loop.simps)
  show ?thesis
    using flag made matcher answer by blast
qed

section \<open>Loading the rules\<close>

lemma load_files_acc:
  "load_files env d fs rs errs
     = (rs @ List.map_filter (loaded_rule env d) fs,
        errs @ List.map_filter (failure_entry env d) fs)"
proof (induction fs arbitrary: rs errs)
  case Nil
  then show ?case by (simp add: List.map_filter_simps)
next
  case (Cons f fs)
  then show ?case
    by (cases "read_rule env d f")
       (simp_all add: List.map_filter_simps loaded_rule_def failure_entry_def)
qed

lemma map_filter_lengths:
  "length (List.map_filter (loaded_rule env d) fs)
     + length (List.map_filter (failure_entry env d) fs) = length fs"
proof (induction fs)
  case Nil
  then show ?case by (simp add: List.map_filter_simps)
next
  case (Cons f fs)
  then show ?case
    by (cases "read_rule env d f")
       (simp_all add: List.map_filter_simps loaded_rule_def failure_entry_def)
qed

lemma loadRules_listed:
  assumes "root_dir env projectRoot = Inr rootDir"
    and "readdir env (rules_dir env rootDir) = Inr files"
  shows "loadRules env cache projectRoot =
     (let rs = List.map_filter (loaded_rule env (rules_dir env rootDir)) (mdc_files env files);
          errs = List.map_filter (failure_entry env (rules_dir env rootDir)) (mdc_files env files)
      in (\<lparr> message = LoadedRules rs (rules_dir env rootDir) errs, error = False,
            rules = rs, fileErrors = (if errs \<noteq> [] then Some errs else None) \<rparr>,
          cache(rootDir \<mapsto> rs)))"
  using assms
  by (simp add: loadRules_def Let_def load_files_acc)

lemma loadRules_not_listed:
  assumes "root_dir env projectRoot = Inr rootDir"
    and "readdir env (rules_dir env rootDir) = Inl e"
  shows "loadRules env cache projectRoot =
     (\<lparr> message = NoRulesDirectory (rules_dir env rootDir), error = True,
        rules = [], fileErrors = None \<rparr>, cache)"
  using assms by (simp add: loadRules_def Let_def)

lemma map_filter_all_None:
  "list_all (\<lambda>x. f x = None) xs \<Longrightarrow> List.map_filter f xs = []"
  by (induction xs) (simp_all add: List.map_filter_simps)

lemma fixture_root [simp]: "r \<noteq> [] \<Longrightarrow> root_dir fixture_env (Some r) = Inr r"
  by (simp add: root_dir_def)

lemma fixture_rules_dir [simp]:
  "rules_dir fixture_env ''/test/project'' = ''/test/project/.cursor/rules''"
  "rules_dir fixture_env ''/empty'' = ''/empty/.cursor/rules''"
  "rules_dir fixture_env ''/failing'' = ''/failing/.cursor/rules''"
  "rules_dir fixture_env ''/missing'' = ''/missing/.cursor/rules''"
  by (simp_all add: rules_dir_def fixture_env_def fixture_join_def)

lemma fixture_readdir [simp]:
  "readdir fixture_env ''/test/project/.cursor/rules''
     = Inr [''typescript.mdc'', ''bad.mdc'', ''global.mdc'', ''ignored.txt'']"
  "readdir fixture_env ''/empty/.cursor/rules'' = Inr []"
  "readdir fixture_env ''/failing/.cursor/rules'' = Inr [''bad.mdc'', ''broken.mdc'']"
  "readdir fixture_env ''/missing/.cursor/rules'' = Inl (Error ''Directory not found'')"
  by (simp_all add: fixture_env_def)

lemma fixture_mdc_files [simp]:
  "mdc_files fixture_env [''typescript.mdc'', ''bad.mdc'', ''global.mdc'', ''ignored.txt'']
     = [''typescript.mdc'', ''bad.mdc'', ''global.mdc'']"
  "mdc_files fixture_env [] = []"
  "mdc_files fixture_env [''bad.mdc'', ''broken.mdc''] = [''bad.mdc'', ''broken.mdc'']"
  by (simp_all add: mdc_files_def fixture_env_def)

lemma fixture_read_rule [simp]:
  "read_rule fixture_env ''/test/project/.cursor/rules'' ''typescript.mdc'' = Inr ts_rule"
  "read_rule fixture_env ''/test/project/.cursor/rules'' ''global.mdc'' = Inr global_rule"
  "read_rule fixture_env ''/test/project/.cursor/rules'' ''bad.mdc''
     = Inl (Error ''Permission denied'')"
  "read_rule fixture_env ''/failing/.cursor/rules'' ''bad.mdc'' = Inl (Error ''Permission denied'')"
  "read_rule fixture_env ''/failing/.cursor/rules'' ''broken.mdc'' = Inl (Error ''Cannot parse'')"
  by (simp_all add: read_rule_def fixture_env_def fixture_join_def fixture_parser_def
      make_rule_def make_globs_def js_or_def fm_get_def ts_rule_def global_rule_def)

text \<open>
  C2: for a resolved root, when the rules directory cannot be listed the load returns no
  record with the error flag set and the cache is the one it was called with; when it
  can be listed, the cache is the old one with the entry of the root replaced by the
  records of this load alone (which do not depend on the old cache), the error flag is
  not set, and when every entry fails the cached list is empty.
\<close>

theorem loadRules_cache_effect:
  assumes "root_dir env projectRoot = Inr rootDir"
  shows "case readdir env (rules_dir env rootDir) of
           Inl e \<Rightarrow>
             rules (fst (loadRules env cache projectRoot)) = []
             \<and> error (fst (loadRules env cache projectRoot)) = True
             \<and> snd (loadRules env cache projectRoot) = cache
         | Inr files \<Rightarrow>
             snd (loadRules env cache projectRoot)
               = cache(rootDir \<mapsto>
                   List.map_filter (loaded_rule env (rules_dir env rootDir)) (mdc_files env files))
             \<and> rules (fst (loadRules env cache projectRoot))
               = List.map_filter (loaded_rule env (rules_dir env rootDir)) (mdc_files env files)
             \<and> error (fst (loadRules env cache projectRoot)) = False
             \<and> (list_all (\<lambda>f. loaded_rule env (rules_dir env rootDir) f = None)
                   (mdc_files env files)
                 \<longrightarrow> snd (loadRules env cache projectRoot) rootDir = Some [])"
proof (cases "readdir env (rules_dir env rootDir)")
  case (Inl e)
  then show ?thesis by (simp add: loadRules_not_listed [OF assms Inl])
next
  case (Inr files)
  then show ?thesis
    by (simp add: loadRules_listed [OF assms Inr] Let_def map_filter_all_None)
qed

theorem loadRules_cache_effect_witness:
  "snd (loadRules fixture_env [''/missing'' \<mapsto> [ts_rule]] (Some ''/missing''))
     = [''/missing'' \<mapsto> [ts_rule]]
   \<and> error (fst (loadRules fixture_env [''/missing'' \<mapsto> [ts_rule]] (Some ''/missing''))) = True
   \<and> snd (loadRules fixture_env [''/failing'' \<mapsto> [ts_rule]] (Some ''/failing'')) ''/failing''
     = Some []
   \<and> error (fst (loadRules fixture_env [''/failing'' \<mapsto> [ts_rule]] (Some ''/failing''))) = False"
proof -
  have missing: "root_dir fixture_env (Some ''/missing'') = Inr ''/missing''" by simp
  have failing: "root_dir fixture_env (Some ''/failing'') = Inr ''/failing''" by simp
  show ?thesis
    using loadRules_cache_effect [OF missing, of "[''/missing'' \<mapsto> [ts_rule]]"]
      loadRules_cache_effect [OF failing, of "[''/failing'' \<mapsto> [ts_rule]]"]
    by (simp add: loaded_rule_def)
qed

text \<open>
  C3: when the directory is listed, the records are those of the entries that read and
  parse, each built from its own file alone and in the order of the listing; the failure
  list has one message for each entry that fails, and no record; the two lists together
  account for every \<^verbatim>\<open>.mdc\<close> entry; the error flag of the load is not set.
\<close>

theorem loadRules_partial_failure:
  assumes "root_dir env projectRoot = Inr rootDir"
    and "readdir env (rules_dir env rootDir) = Inr files"
  shows "rules (fst (loadRules env cache projectRoot))
           = List.map_filter (loaded_rule env (rules_dir env rootDir)) (mdc_files env files)
         \<and> (case fileErrors (fst (loadRules env cache projectRoot)) of
               None \<Rightarrow> []
             | Some errs \<Rightarrow> errs)
           = List.map_filter (failure_entry env (rules_dir env rootDir)) (mdc_files env files)
         \<and> length (rules (fst (loadRules env cache projectRoot)))
             + length (List.map_filter (failure_entry env (rules_dir env rootDir))
                         (mdc_files env files))
           = length (mdc_files env files)
         \<and> error (fst (loadRules env cache projectRoot)) = False"
  by (simp add: loadRules_listed [OF assms] Let_def map_filter_lengths)

theorem loadRules_partial_failure_witness:
  "rules (fst (loadRules fixture_env Map.empty (Some ''/test/project''))) = [ts_rule, global_rule]
   \<and> fileErrors (fst (loadRules fixture_env Map.empty (Some ''/test/project'')))
       = Some [''Error reading rule file bad.mdc: Permission denied'']
   \<and> error (fst (loadRules fixture_env Map.empty (Some ''/test/project''))) = False"
proof -
  have root: "root_dir fixture_env (Some ''/test/project'') = Inr ''/test/project''" by simp
  have listed: "readdir fixture_env (rules_dir fixture_env ''/test/project'')
     = Inr [''typescript.mdc'', ''bad.mdc'', ''global.mdc'', ''ignored.txt'']" by simp
  show ?thesis
    using loadRules_partial_failure [OF root listed, of Map.empty]
    by (simp add: loaded_rule_def failure_entry_def List.map_filter_simps file_error_def
        split: option.splits)
qed

section \<open>Getting the rules for a file\<close>






section \<open>The agent document\<close>

lemma loadAgents_success_cached:
  assumes "\<not> error (fst (loadAgents env cache projectRoot))"
  shows "\<exists>r a. root_dir env projectRoot = Inr r
           \<and> snd (loadAgents env cache projectRoot) r = Some a
           \<and> agents (fst (loadAgents env cache projectRoot)) = Some a"
  using assms
  by (auto simp: loadAgents_def Let_def split: sum.splits prod.splits)

lemma loadAgents_message:
  "message (fst (loadAgents env cache projectRoot)) \<noteq> NoAgentsFound"
  by (auto simp: loadAgents_def Let_def split: sum.splits prod.splits)

lemma root_dir_idem:
  "root_dir env projectRoot = Inr r \<Longrightarrow> root_dir env (Some r) = Inr r"
  by (auto simp: root_dir_def split: option.splits if_splits)

lemma present_agents_cached:
  "cache r = Some a \<Longrightarrow>
   present_agents cache r
     = (\<lparr> message = AgentsContent (description a) (content a), error = False,
          agents = Some a \<rparr>, cache)"
  by (simp add: present_agents_def)

text \<open>
  C9: a load of the agent document that returns without the error flag leaves an entry
  for the resolved root in the cache; \<^verbatim>\<open>getAgents\<close> never returns the message
  \<^verbatim>\<open>No AGENTS.md found. Run load_agents first.\<close>; and when it returns the error flag,
  either resolving the root threw (the fault caught at the boundary) or the root had no
  entry and the implicit load returned the error flag, whose message is passed on.
\<close>

theorem getAgents_error_only_from_load:
  "(\<not> error (fst (loadAgents env cache projectRoot))
      \<longrightarrow> (\<exists>r a. root_dir env projectRoot = Inr r
                 \<and> snd (loadAgents env cache projectRoot) r = Some a))
   \<and> message (fst (getAgents env cache projectRoot)) \<noteq> NoAgentsFound
   \<and> (error (fst (getAgents env cache projectRoot))
      \<longrightarrow> (\<exists>e. root_dir env projectRoot = Inl e
                 \<and> message (fst (getAgents env cache projectRoot))
                     = ErrorGettingAgents (err_message e))
          \<or> (\<exists>r. root_dir env projectRoot = Inr r \<and> cache r = None
                 \<and> error (fst (loadAgents env cache (Some r)))
                 \<and> message (fst (getAgents env cache projectRoot))
                     = message (fst (loadAgents env cache (Some r)))))"
proof (cases "root_dir env projectRoot")
  case (Inl e)
  then show ?thesis
    by (simp add: getAgents_def loadAgents_def)
next
  case (Inr r)
  have first: "\<not> error (fst (loadAgents env cache projectRoot))
      \<longrightarrow> (\<exists>r a. root_dir env projectRoot = Inr r
                 \<and> snd (loadAgents env cache projectRoot) r = Some a)"
    using loadAgents_success_cached by blast
  show ?thesis
  proof (cases "cache r")
    case (Some a)
    then show ?thesis using first Inr
      by (simp add: getAgents_def present_agents_cached)
  next
    case None
    show ?thesis
    proof (cases "error (fst (loadAgents env cache (Some r)))")
      case True
      then show ?thesis using first Inr None loadAgents_message [of env cache "Some r"]
        by (auto simp: getAgents_def split: prod.splits)
    next
      case False
      then obtain r' a where r': "root_dir env (Some r) = Inr r'"
        and a: "snd (loadAgents env cache (Some r)) r' = Some a"
        using loadAgents_success_cached by blast
      have "r' = r" using r' root_dir_idem [OF Inr] by simp
      then show ?thesis using first Inr None False a
        by (auto simp: getAgents_def present_agents_cached split: prod.splits)
    qed
  qed
qed

theorem getAgents_error_only_from_load_witness:
  "error (fst (loadAgents fixture_env Map.empty (Some ''/test/project''))) = False
   \<and> error (fst (getAgents fixture_env Map.empty (Some ''/test/project''))) = False
   \<and> error (fst (getAgents fixture_env Map.empty (Some ''/missing''))) = True
   \<and> error (fst (loadAgents fixture_env Map.empty (Some ''/missing''))) = True
   \<and> message (fst (getAgents fixture_env Map.empty (Some ''/missing'')))
       = NoAgentsFile ''/missing/AGENTS.md''"
proof -
  have ok: "loadAgents fixture_env Map.empty (Some ''/test/project'')
      = (\<lparr> message = LoadedAgents ''/test/project/AGENTS.md'' (JStr ''Agent rules and guidelines''),
            error = False, agents = Some (make_agent Map.empty ''Agent guidance'') \<rparr>,
         [''/test/project'' \<mapsto> make_agent Map.empty ''Agent guidance''])"
    by (simp add: loadAgents_def fixture_env_def fixture_join_def fixture_parser_def
        make_agent_def js_or_def fm_get_def root_dir_def Let_def)
  have missing: "loadAgents fixture_env Map.empty (Some ''/missing'')
      = (\<lparr> message = NoAgentsFile ''/missing/AGENTS.md'', error = True, agents = None \<rparr>,
         Map.empty)"
    by (simp add: loadAgents_def fixture_env_def fixture_join_def root_dir_def)
  have get_ok: "error (fst (getAgents fixture_env Map.empty (Some ''/test/project''))) = False"
    by (simp add: getAgents_def ok present_agents_def)
  have get_missing: "error (fst (getAgents fixture_env Map.empty (Some ''/missing''))) = True"
    by (simp add: getAgents_def missing)
  show ?thesis
    using getAgents_error_only_from_load [of fixture_env Map.empty "Some ''/test/project''"]
      getAgents_error_only_from_load [of fixture_env Map.empty "Some ''/missing''"]
      get_ok get_missing
    by (simp add: ok missing)
qed

section \<open>The frontmatter parser: documents without a header\<close>

lemma split_on_not_Nil: "split_on sep s \<noteq> []"
  by (induction s) (auto split: list.splits)

lemma split_at_delimiter_None:
  "(split_at_delimiter ls = None) = (delimiter \<notin> set ls)"
  by (induction ls) (auto split: option.splits)

text \<open>
  C5: when the first line of the document is not exactly the delimiter, or no line after
  the first one is exactly the delimiter, the parser returns the empty metadata and the
  document itself, the opening delimiter line included.
\<close>

theorem parseFrontmatter_without_header:
  assumes "hd (split_on newline document) \<noteq> delimiter
           \<or> delimiter \<notin> set (tl (split_on newline document))"
  shows "parseFrontmatter document = (Map.empty, document)"
proof (cases "split_on newline document")
  case Nil
  then show ?thesis by (simp add: split_on_not_Nil)
next
  case (Cons first rest)
  show ?thesis
  proof (cases "first = delimiter")
    case False
    then show ?thesis using Cons by (simp add: parseFrontmatter_def)
  next
    case True
    with assms Cons have "delimiter \<notin> set rest" by simp
    then have "split_at_delimiter rest = None" by (simp add: split_at_delimiter_None)
    then show ?thesis using Cons True by (simp add: parseFrontmatter_def)
  qed
qed

theorem parseFrontmatter_without_header_witness:
  "parseFrontmatter ''This is plain content without frontmatter''
     = (Map.empty, ''This is plain content without frontmatter'')
   \<and> parseFrontmatter
       ''---\<newline>description: Test\<newline>This is content without closing delimiter''
     = (Map.empty,
        ''---\<newline>description: Test\<newline>This is content without closing delimiter'')"
proof -
  have plain: "hd (split_on newline ''This is plain content without frontmatter'') \<noteq> delimiter
      \<or> delimiter \<notin> set (tl (split_on newline ''This is plain content without frontmatter''))"
    by (simp add: newline_def delimiter_def)
  have lines: "split_on newline
      ''---\<newline>description: Test\<newline>This is content without closing delimiter''
      = [''---'', ''description: Test'', ''This is content without closing delimiter'']"
    by (simp add: newline_def)
  have unclosed: "hd (split_on newline
        ''---\<newline>description: Test\<newline>This is content without closing delimiter'')
          \<noteq> delimiter
      \<or> delimiter \<notin> set (tl (split_on newline
        ''---\<newline>description: Test\<newline>This is content without closing delimiter''))"
    unfolding lines by (simp add: delimiter_def)
  show ?thesis
    using parseFrontmatter_without_header [OF plain]
      parseFrontmatter_without_header [OF unclosed]
    by simp
qed

section \<open>The frontmatter parser: bracketed values\<close>

lemmas strict_array_eval =
  strict_array_def emit_def json_ws_def dquote_def backslash_def unescape_def
  bare_value_def int_literal_def is_digit_def digits_value_def

lemmas manual_items_eval =
  manual_items_def trim_def is_space_def strip_quotes_def strip_leading_quote_def
  is_quote_def dquote_def squote_def

lemma strict_quoted_globs:
  \<open>strict_array ''["*.ts", "*.js"]'' = Some (JArr [JStr ''*.ts'', JStr ''*.js''])\<close>
  by (simp add: strict_array_eval)

lemma strict_unquoted_globs:
  \<open>strict_array ''[*.ts, *.js]'' = None\<close>
  by (simp add: strict_array_eval)

lemma manual_unquoted_globs:
  \<open>manual_items ''[*.ts, *.js]'' = [''*.ts'', ''*.js'']\<close>
  by (simp add: manual_items_eval)

text \<open>
  C6: a raw value that starts with \<^verbatim>\<open>[\<close> and ends with \<^verbatim>\<open>]\<close> is decoded by the strict
  array decoding when it succeeds, and otherwise by the manual decoding: the outer
  brackets stripped, the rest split at commas, each piece trimmed and stripped of one
  layer of quotes, the empty pieces dropped. The quoted array of the two globs and its
  unquoted form decode to the same sequence of two strings, the first strictly, the
  second manually.
\<close>

theorem decode_value_bracketed:
  assumes "bracketed raw"
  shows \<open>decode_value raw
           = (case strict_array raw of
                Some v \<Rightarrow> (case v of JArr xs \<Rightarrow> JArr xs | _ \<Rightarrow> JArr [v])
              | None \<Rightarrow>
                  JArr (map JStr
                    (filter (\<lambda>piece. piece \<noteq> [])
                       (map (\<lambda>piece. strip_quotes (trim piece))
                          (split_on (CHR '','') (butlast (tl raw)))))))
         \<and> strict_array ''["*.ts", "*.js"]'' = Some (JArr [JStr ''*.ts'', JStr ''*.js''])
         \<and> decode_value ''["*.ts", "*.js"]'' = JArr [JStr ''*.ts'', JStr ''*.js'']
         \<and> strict_array ''[*.ts, *.js]'' = None
         \<and> decode_value ''[*.ts, *.js]'' = JArr [JStr ''*.ts'', JStr ''*.js'']\<close>
proof -
  have general: "decode_value raw
      = (case strict_array raw of
           Some v \<Rightarrow> (case v of JArr xs \<Rightarrow> JArr xs | _ \<Rightarrow> JArr [v])
         | None \<Rightarrow>
             JArr (map JStr
               (filter (\<lambda>piece. piece \<noteq> [])
                  (map (\<lambda>piece. strip_quotes (trim piece))
                     (split_on (CHR '','') (butlast (tl raw)))))))"
    using assms by (simp add: decode_value_def manual_items_def split: option.splits)
  have quoted: \<open>decode_value ''["*.ts", "*.js"]'' = JArr [JStr ''*.ts'', JStr ''*.js'']\<close>
    by (simp add: decode_value_def bracketed_def strict_quoted_globs)
  have unquoted: \<open>decode_value ''[*.ts, *.js]'' = JArr [JStr ''*.ts'', JStr ''*.js'']\<close>
    by (simp add: decode_value_def bracketed_def strict_unquoted_globs manual_unquoted_globs)
  show ?thesis
    using general quoted unquoted strict_quoted_globs strict_unquoted_globs
    by simp
qed

theorem decode_value_bracketed_witness:
  \<open>bracketed ''[invalid array syntax]''
   \<and> strict_array ''[invalid array syntax]'' = None
   \<and> decode_value ''[invalid array syntax]'' = JArr [JStr ''invalid array syntax'']\<close>
proof -
  have b: "bracketed ''[invalid array syntax]''"
    by (simp add: bracketed_def)
  have s: "strict_array ''[invalid array syntax]'' = None"
    by (simp add: strict_array_eval)
  show ?thesis
    using b s decode_value_bracketed [OF b]
    by (simp add: manual_items_eval)
qed

section \<open>The frontmatter parser: plain values\<close>

text \<open>
  A header value that is neither \<^verbatim>\<open>true\<close> nor \<^verbatim>\<open>false\<close> nor bracketed stays a string:
  the line \<^verbatim>\<open>alwaysApply: no\<close> gives the services the string \<^verbatim>\<open>no\<close>.
\<close>

lemma header_value_no_is_a_string:
  "fst (parseFrontmatter ''---\<newline>alwaysApply: no\<newline>---\<newline>Body'') ''alwaysApply''
     = Some (JStr ''no'')"
proof -
  have lines: "split_on newline ''---\<newline>alwaysApply: no\<newline>---\<newline>Body''
      = [''---'', ''alwaysApply: no'', ''---'', ''Body'']"
    by (simp add: newline_def)
  have entry: "header_entry ''alwaysApply: no'' = Some (''alwaysApply'', JStr ''no'')"
    by (simp add: header_entry_def decode_value_def bracketed_def trim_def is_space_def)
  show ?thesis
    unfolding parseFrontmatter_def lines
    by (simp add: entry delimiter_def parse_header_def)
qed

text \<open>
  The literal \<^verbatim>\<open>true\<close> is decoded to the boolean whatever the key: the line
  \<^verbatim>\<open>globs: true\<close> gives the services the boolean, which the load stores as the one
  pattern of the rule.
\<close>

lemma header_value_true_is_a_boolean:
  "fst (parseFrontmatter ''---\<newline>globs: true\<newline>---\<newline>Body'') ''globs''
     = Some (JBool True)
   \<and> make_globs (JBool True) = [JBool True]"
proof -
  have lines: "split_on newline ''---\<newline>globs: true\<newline>---\<newline>Body''
      = [''---'', ''globs: true'', ''---'', ''Body'']"
    by (simp add: newline_def)
  have entry: "header_entry ''globs: true'' = Some (''globs'', JBool True)"
    by (simp add: header_entry_def decode_value_def bracketed_def trim_def is_space_def)
  have parsed: "fst (parseFrontmatter ''---\<newline>globs: true\<newline>---\<newline>Body'') ''globs''
      = Some (JBool True)"
    unfolding parseFrontmatter_def lines
    by (simp add: entry delimiter_def parse_header_def)
  show ?thesis
    using parsed by (simp add: make_globs_def)
qed

end
